theory Spec2Isabelle
  imports Main "HOL-Library.Word" "HOL-Library.Signed_Division"
begin

unbundle bit_operations_syntax

section \<open>map2: a two-dimensional map guarded by RTOS mutexes\<close>

text \<open>
  The embedding follows \<^verbatim>\<open>map2.c\<close> and \<^verbatim>\<open>map2.h\<close>. The target is a 32-bit
  microcontroller: \<^verbatim>\<open>int\<close>, \<^verbatim>\<open>uint32_t\<close> and pointers are 32-bit words. A C
  \<^verbatim>\<open>int\<close> is read with \<open>sint\<close> and compared with \<open><s\<close> and \<open>\<le>s\<close>; an address or a
  \<^verbatim>\<open>uint32_t\<close> is read with \<open>unat\<close>. Arithmetic on words wraps around, which is what
  the compiled code does on this target (for \<^verbatim>\<open>int\<close> the C standard leaves overflow
  undefined; the theorems on offsets state when no overflow happens).
\<close>

subsection \<open>Data model\<close>

type_synonym int32 = "32 word"
type_synonym uint32 = "32 word"
type_synonym addr = "32 word"
type_synonym byte = "8 word"

abbreviation (input) NULL :: addr where
  "NULL \<equiv> 0"

text \<open>The descriptor \<^verbatim>\<open>map2_t\<close> of \<^verbatim>\<open>map2.h\<close>, field by field.\<close>

record map2_t =
  data :: addr
  rows :: int32
  columns :: int32
  data_size :: int32
  field_size :: int32
  mut :: addr
  keys :: int32

datatype map2_operation_t = MAP2_OP_READONLY | MAP2_OP_READWRITE

definition MAP2_NKEYS_1 :: int32 where "MAP2_NKEYS_1 = 1"
definition MAP2_NKEYS_2 :: int32 where "MAP2_NKEYS_2 = 2"
definition MAP2_NKEYS_3 :: int32 where "MAP2_NKEYS_3 = 3"

text \<open>
  \<^verbatim>\<open>SLOT_CNT\<close>, \<^verbatim>\<open>SLOT_CH\<close> and \<^verbatim>\<open>UART_INSTANCES\<close> are constants of the board
  configuration. Their definitions are not part of the map2 sources, so they are
  parameters of the model.
\<close>

record board_config =
  SLOT_CNT :: int32
  SLOT_CH :: int32
  UART_INSTANCES :: int32

subsection \<open>C arithmetic on \<^verbatim>\<open>int\<close>\<close>

text \<open>
  C's \<^verbatim>\<open>/\<close> and \<^verbatim>\<open>%\<close> on \<^verbatim>\<open>int\<close> truncate towards zero. Division by zero is
  undefined in C; here it yields what \<open>sdiv\<close> and \<open>smod\<close> yield on \<open>int\<close>.
\<close>

definition c_div :: "int32 \<Rightarrow> int32 \<Rightarrow> int32" where
  "c_div a b = word_of_int (sint a sdiv sint b)"

definition c_mod :: "int32 \<Rightarrow> int32 \<Rightarrow> int32" where
  "c_mod a b = word_of_int (sint a smod sint b)"

subsection \<open>The macros of \<^verbatim>\<open>map2.c\<close>\<close>

text \<open>\<^verbatim>\<open>#define map2_ptr(var, pos, type) (type*)((uint32_t)var + pos)\<close>\<close>

definition map2_ptr :: "addr \<Rightarrow> int32 \<Rightarrow> addr" where
  "map2_ptr var pos = var + pos"

text \<open>\<^verbatim>\<open>#define map2_pos(m, row, column) ((column + (m->columns * row)) * m->field_size)\<close>\<close>

definition map2_pos :: "map2_t \<Rightarrow> int32 \<Rightarrow> int32 \<Rightarrow> int32" where
  "map2_pos m row column = (column + (columns m * row)) * field_size m"

subsection \<open>Partition key of a row\<close>

text \<open>
  \<^verbatim>\<open>int map2_key(const map2_t *m, int row)\<close>. The map pointer may be \<^verbatim>\<open>NULL\<close>:
  it is an \<open>option\<close>.
\<close>

definition map2_key :: "board_config \<Rightarrow> map2_t option \<Rightarrow> int32 \<Rightarrow> int32" where
  "map2_key cfg mp row =
     (case mp of
        None \<Rightarrow> 0
      | Some m \<Rightarrow>
          if row <s 0 \<or> rows m \<le>s row then 0
          else if keys m = MAP2_NKEYS_1 then 0
          else if keys m = MAP2_NKEYS_3 \<and> SLOT_CNT cfg * SLOT_CH cfg \<le>s row then 2
          else (if c_mod row (UART_INSTANCES cfg) = 0 then 0 else 1))"

subsection \<open>The RTOS and the memory\<close>

text \<open>
  The program runs on an RTOS whose mutex primitives (\<^verbatim>\<open>os_mut_wait\<close>,
  \<^verbatim>\<open>os_mut_release\<close>, declared in \<^verbatim>\<open>RTL.h\<close>) are not part of the map2 sources. The
  model keeps what map2 can observe of them:
  \<^item> \<open>held w x\<close> is how many times the calling task holds the mutex at address \<open>x\<close>;
  \<^item> \<open>trace w\<close> lists, in order, the calls made to the RTOS and to \<^verbatim>\<open>memcpy\<close>;
  \<^item> \<open>mem w\<close> is the byte-addressed memory that holds the grid and the caller's buffers.
  Whether a wait succeeds depends on the other tasks, so the answer of
  \<^verbatim>\<open>os_mut_wait\<close> is an argument \<open>r\<close> of the model: every theorem holds for each
  answer the scheduler can give. Debug output (\<^verbatim>\<open>dbgW\<close>) is left out.
\<close>

datatype os_result = OS_R_TMO | OS_R_MUT | OS_R_OK

datatype event =
    Mut_wait addr uint32
  | Mut_release addr
  | Memcpy addr addr nat

record world =
  mem :: "addr \<Rightarrow> byte"
  held :: "addr \<Rightarrow> nat"
  trace :: "event list"

text \<open>
  \<^verbatim>\<open>os_mut_wait(mutex, timeout)\<close>: unless the wait times out, the calling task owns the
  mutex once more when the call returns.
\<close>

definition os_mut_wait :: "os_result \<Rightarrow> addr \<Rightarrow> uint32 \<Rightarrow> world \<Rightarrow> os_result \<times> world" where
  "os_mut_wait r mutex tout w =
     (r, w\<lparr>held := (if r = OS_R_TMO then held w
                     else (held w)(mutex := Suc (held w mutex))),
            trace := trace w @ [Mut_wait mutex tout]\<rparr>)"

text \<open>\<^verbatim>\<open>os_mut_release(mutex)\<close>: releasing a mutex the task does not hold changes nothing.\<close>

definition os_mut_release :: "addr \<Rightarrow> world \<Rightarrow> world" where
  "os_mut_release mutex w =
     w\<lparr>held := (if held w mutex = 0 then held w
                 else (held w)(mutex := held w mutex - 1)),
       trace := trace w @ [Mut_release mutex]\<rparr>"

text \<open>
  \<open>in_region p n a\<close>: the address \<open>a\<close> is one of the \<open>n\<close> bytes that start at \<open>p\<close>
  (addresses are taken modulo \<open>2 ^ 32\<close>).
\<close>

definition in_region :: "addr \<Rightarrow> nat \<Rightarrow> addr \<Rightarrow> bool" where
  "in_region p n a = (unat (a - p) < n)"

text \<open>
  \<^verbatim>\<open>memcpy(dst, src, n)\<close>: byte \<open>i\<close> of the destination receives byte \<open>i\<close> of the
  source as it was before the call. C leaves the result undefined when the two regions
  overlap; the theorems about the copied bytes assume that they do not.
\<close>

definition memcpy :: "addr \<Rightarrow> addr \<Rightarrow> nat \<Rightarrow> world \<Rightarrow> world" where
  "memcpy dst src n w =
     w\<lparr>mem := (\<lambda>a. if in_region dst n a then mem w (src + (a - dst)) else mem w a),
       trace := trace w @ [Memcpy dst src n]\<rparr>"

text \<open>A later store of one byte by some task.\<close>

definition store_byte :: "addr \<Rightarrow> byte \<Rightarrow> world \<Rightarrow> world" where
  "store_byte a v w = w\<lparr>mem := (mem w)(a := v)\<rparr>"

text \<open>A sequence of later stores, in order.\<close>

definition stores :: "(addr \<times> byte) list \<Rightarrow> world \<Rightarrow> world" where
  "stores ss w = fold (\<lambda>(a, v). store_byte a v) ss w"

subsection \<open>Releasing and taking a partition lock\<close>

text \<open>
  \<^verbatim>\<open>void __map2_drop(const map2_t *m, int row, int column, int key)\<close>. The mutex of a
  key is \<^verbatim>\<open>map2_ptr(m->mut, key, void)\<close>, the address \<open>mut + key\<close>: the macro adds
  the key to the address as a number of bytes. A mutex is identified by that address.
\<close>

definition map2_drop :: "map2_t option \<Rightarrow> int32 \<Rightarrow> int32 \<Rightarrow> int32 \<Rightarrow> world \<Rightarrow> world" where
  "map2_drop mp row column key w =
     (case mp of
        None \<Rightarrow> w
      | Some m \<Rightarrow>
          if row <s 0 \<or> rows m \<le>s row \<or> column <s 0 \<or> columns m \<le>s column then w
          else if key <s 0 \<or> keys m \<le>s key then w
          else os_mut_release (map2_ptr (mut m) key) w)"

text \<open>
  \<^verbatim>\<open>void *__map2_take(const map2_t *m, int row, int column, int key, void *dst,
  uint32_t tout, map2_operation_t op)\<close>, with \<^verbatim>\<open>MAP2_CONFIG_MUT_DISABLE\<close> undefined, as
  in \<^verbatim>\<open>map2.c\<close>. The result is the returned pointer and the world after the call.
\<close>

text \<open>
  The timeout handed to \<^verbatim>\<open>os_mut_wait\<close>, lines 153 and 154 of \<^verbatim>\<open>map2.c\<close>:
  \<^verbatim>\<open>if (tout >= 0xFFFF) tout -= 1;\<close>
\<close>

definition wait_bound :: "uint32 \<Rightarrow> uint32" where
  "wait_bound tout = (if 0xFFFF \<le> tout then tout - 1 else tout)"

definition map2_take ::
  "os_result \<Rightarrow> map2_t option \<Rightarrow> int32 \<Rightarrow> int32 \<Rightarrow> int32 \<Rightarrow> addr \<Rightarrow> uint32 \<Rightarrow>
   map2_operation_t \<Rightarrow> world \<Rightarrow> addr \<times> world" where
  "map2_take r mp row column key dst tout op w =
     (case mp of
        None \<Rightarrow> (NULL, w)
      | Some m \<Rightarrow>
          if row <s 0 \<or> rows m \<le>s row \<or> column <s 0 \<or> columns m \<le>s column then (NULL, w)
          else if key <s 0 \<or> keys m \<le>s key then (NULL, w)
          else
            let (res, w1) = os_mut_wait r (map2_ptr (mut m) key) (wait_bound tout) w
            in if res = OS_R_TMO then (NULL, w1)
               else
                 let src = map2_ptr (data m) (map2_pos m row column);
                     (dst1, w2) =
                       (if op = MAP2_OP_READONLY then
                          (dst, if dst \<noteq> NULL \<and> src \<noteq> NULL
                                then memcpy dst src (unat (field_size m)) w1 else w1)
                        else (src, w1));
                     w3 = (if dst1 = NULL \<or> op = MAP2_OP_READONLY
                           then map2_drop mp row column key w2 else w2)
                 in (dst1, w3))"

subsection \<open>The access macros of \<^verbatim>\<open>map2.h\<close>\<close>

text \<open>
  \<^verbatim>\<open>map2_readonly_trycatch(m, row, column, key, dst, tout, fnc, err)\<close> passes the
  address of the caller's variable \<^verbatim>\<open>dst\<close> to \<^verbatim>\<open>__map2_take\<close>. The blocks \<^verbatim>\<open>fnc\<close>
  and \<^verbatim>\<open>err\<close> are functions on the world; they run to their end (a block that
  leaves early with \<^verbatim>\<open>break\<close> or \<^verbatim>\<open>return\<close> is not modelled).
\<close>

definition map2_readonly_trycatch ::
  "os_result \<Rightarrow> map2_t option \<Rightarrow> int32 \<Rightarrow> int32 \<Rightarrow> int32 \<Rightarrow> addr \<Rightarrow> uint32 \<Rightarrow>
   (world \<Rightarrow> world) \<Rightarrow> (world \<Rightarrow> world) \<Rightarrow> world \<Rightarrow> world" where
  "map2_readonly_trycatch r mp row column key dst_addr tout fnc err w =
     (let (p, w1) = map2_take r mp row column key dst_addr tout MAP2_OP_READONLY w
      in if p \<noteq> NULL then fnc w1 else err w1)"

text \<open>
  \<^verbatim>\<open>map2_readwrite_trycatch(m, row, column, key, dst, tout, fnc, err)\<close> assigns the
  returned pointer to \<^verbatim>\<open>dst\<close>, runs \<^verbatim>\<open>fnc\<close> with it, and calls \<^verbatim>\<open>__map2_drop\<close>.
\<close>

definition map2_readwrite_trycatch ::
  "os_result \<Rightarrow> map2_t option \<Rightarrow> int32 \<Rightarrow> int32 \<Rightarrow> int32 \<Rightarrow> addr \<Rightarrow> uint32 \<Rightarrow>
   (addr \<Rightarrow> world \<Rightarrow> world) \<Rightarrow> (world \<Rightarrow> world) \<Rightarrow> world \<Rightarrow> world" where
  "map2_readwrite_trycatch r mp row column key dst tout fnc err w =
     (let (p, w1) = map2_take r mp row column key dst tout MAP2_OP_READWRITE w
      in if p \<noteq> NULL then map2_drop mp row column key (fnc p w1) else err w1)"

subsection \<open>Valid arguments\<close>

text \<open>
  The arguments that pass the three checks at the head of \<^verbatim>\<open>__map2_take\<close> and
  \<^verbatim>\<open>__map2_drop\<close>.
\<close>

definition valid_index :: "map2_t option \<Rightarrow> int32 \<Rightarrow> int32 \<Rightarrow> int32 \<Rightarrow> bool" where
  "valid_index mp row column key =
     (case mp of
        None \<Rightarrow> False
      | Some m \<Rightarrow> 0 \<le>s row \<and> row <s rows m \<and> 0 \<le>s column \<and> column <s columns m \<and>
                  0 \<le>s key \<and> key <s keys m)"

text \<open>The world right after \<^verbatim>\<open>os_mut_wait\<close> has granted the mutex of \<open>key\<close>.\<close>

definition after_wait :: "map2_t \<Rightarrow> int32 \<Rightarrow> uint32 \<Rightarrow> world \<Rightarrow> world" where
  "after_wait m key tout w =
     w\<lparr>held := (held w)(map2_ptr (mut m) key := Suc (held w (map2_ptr (mut m) key))),
       trace := trace w @ [Mut_wait (map2_ptr (mut m) key) (wait_bound tout)]\<rparr>"

subsection \<open>Creating a map\<close>

text \<open>
  \<^verbatim>\<open>MAP2(data_type, mapname, nrows, ncolumns, nkeys)\<close> declares the static array
  \<^verbatim>\<open>data_type __mapname[nrows][ncolumns]\<close> and the mutex array, and fills the
  descriptor. \<open>sz\<close> is \<^verbatim>\<open>sizeof(data_type)\<close>; \<open>base\<close> and \<open>mut_base\<close> are the addresses
  the linker gives to the two arrays. \<^verbatim>\<open>.data_size = sizeof(__mapname)\<close> converts a
  \<^verbatim>\<open>size_t\<close> to \<^verbatim>\<open>int\<close>.
\<close>

definition MAP2 :: "nat \<Rightarrow> addr \<Rightarrow> addr \<Rightarrow> nat \<Rightarrow> nat \<Rightarrow> int32 \<Rightarrow> map2_t" where
  "MAP2 sz base mut_base nrows ncolumns nkeys =
     \<lparr>data = base,
      rows = of_nat nrows,
      columns = of_nat ncolumns,
      data_size = of_nat (nrows * ncolumns * sz),
      field_size = of_nat sz,
      mut = mut_base,
      keys = nkeys\<rparr>"

subsection \<open>Walking over the items\<close>

text \<open>
  \<^verbatim>\<open>map2_unsafe_foreach(m, item, type)\<close> starts with \<^verbatim>\<open>item = (type*)(m)->data\<close> and
  steps with \<^verbatim>\<open>item++\<close>, which adds \<^verbatim>\<open>sizeof(type)\<close> to the address:
  \<open>foreach_item m sz i\<close> is the pointer after \<open>i\<close> steps.
\<close>

fun foreach_item :: "map2_t \<Rightarrow> nat \<Rightarrow> nat \<Rightarrow> addr" where
  "foreach_item m sz 0 = data m"
| "foreach_item m sz (Suc i) = foreach_item m sz i + of_nat sz"

text \<open>
  The difference \<^verbatim>\<open>p - q\<close> of two pointers to \<^verbatim>\<open>type\<close> is the difference of the
  addresses divided by \<^verbatim>\<open>sizeof(type)\<close>, a signed value (\<^verbatim>\<open>ptrdiff_t\<close>).
\<close>

definition ptr_diff :: "nat \<Rightarrow> addr \<Rightarrow> addr \<Rightarrow> int32" where
  "ptr_diff sz p q = c_div (p - q) (of_nat sz)"

text \<open>\<^verbatim>\<open>#define map2_item_row(m, item, type) ((item - (type*)(m)->data) / (m)->columns)\<close>\<close>

definition map2_item_row :: "map2_t \<Rightarrow> addr \<Rightarrow> nat \<Rightarrow> int32" where
  "map2_item_row m item sz = c_div (ptr_diff sz item (data m)) (columns m)"

text \<open>\<^verbatim>\<open>#define map2_item_column(m, item, type) ((item - (type*)(m)->data) % (m)->columns)\<close>\<close>

definition map2_item_column :: "map2_t \<Rightarrow> addr \<Rightarrow> nat \<Rightarrow> int32" where
  "map2_item_column m item sz = c_mod (ptr_diff sz item (data m)) (columns m)"

subsection \<open>A concrete grid\<close>

text \<open>
  Four rows, two columns, two partitions and cells of two \<^verbatim>\<open>int\<close>s (8 bytes), in a
  memory whose byte at address \<open>a\<close> is the low byte of \<open>a\<close>, with no mutex held.
\<close>

definition example_map :: map2_t where
  "example_map = MAP2 8 0x20000000 0x20000100 4 2 MAP2_NKEYS_2"

definition example_world :: world where
  "example_world = \<lparr>mem = (\<lambda>a. ucast a), held = (\<lambda>a. 0), trace = []\<rparr>"

definition example_config :: board_config where
  "example_config = \<lparr>SLOT_CNT = 1, SLOT_CH = 2, UART_INSTANCES = 2\<rparr>"

section \<open>Auxiliary facts\<close>

lemmas example_defs = example_map_def example_world_def example_config_def MAP2_def
  MAP2_NKEYS_1_def MAP2_NKEYS_2_def MAP2_NKEYS_3_def word_sle_eq word_sless_alt

lemmas take_eval = map2_take_def map2_drop_def os_mut_wait_def os_mut_release_def
  wait_bound_def map2_ptr_def map2_pos_def memcpy_def Let_def

subsection \<open>Signed arithmetic\<close>

lemma smod_nonneg: "0 \<le> (k::int) \<Longrightarrow> 0 \<le> l \<Longrightarrow> k smod l = k mod l"
  by (cases "k = 0") (simp_all add: smod_int_alt_def)

lemma sint_word_of_int_small:
  "- (2 ^ 31) \<le> k \<Longrightarrow> k < 2 ^ 31 \<Longrightarrow> sint (word_of_int k :: 32 word) = k"
  by (simp add: sint_sbintrunc' signed_take_bit_int_eq_self)

lemma not_sless_iff: "\<not> a <s b \<longleftrightarrow> b \<le>s a"
  by (simp add: word_sle_eq word_sless_alt not_less)

lemma c_mod_2_nonneg:
  assumes "0 \<le>s row"
  shows "sint (c_mod row 2) = sint row mod 2"
proof -
  from assms have nn: "0 \<le> sint row" by (simp add: word_sle_eq)
  have "sint row smod sint (2 :: 32 word) = sint row mod 2"
    using smod_nonneg [OF nn, of 2] by simp
  moreover have "0 \<le> sint row mod 2" "sint row mod 2 < 2" by simp_all
  ultimately show ?thesis
    by (simp add: c_mod_def sint_word_of_int_small)
qed

lemma even_odd_rule:
  assumes "0 \<le>s row"
  shows "sint (if c_mod row 2 = 0 then 0 else (1 :: 32 word)) = sint row mod 2"
proof -
  have "sint row mod 2 = 0 \<or> sint row mod 2 = 1" by presburger
  then show ?thesis
  proof
    assume z: "sint row mod 2 = 0"
    then have "sint (c_mod row 2) = sint (0 :: 32 word)"
      using c_mod_2_nonneg [OF assms] by simp
    then have "c_mod row 2 = 0" by (rule signed_word_eqI)
    with z show ?thesis by simp
  next
    assume o: "sint row mod 2 = 1"
    then have "c_mod row 2 \<noteq> 0" using c_mod_2_nonneg [OF assms] by auto
    with o show ?thesis by simp
  qed
qed

subsection \<open>The paths through \<^verbatim>\<open>__map2_take\<close>\<close>

lemma valid_index_Some:
  "valid_index (Some m) row column key \<longleftrightarrow>
     \<not> (row <s 0 \<or> rows m \<le>s row \<or> column <s 0 \<or> columns m \<le>s column) \<and>
     \<not> (key <s 0 \<or> keys m \<le>s key)"
  by (auto simp: valid_index_def)

lemma map2_drop_valid:
  "valid_index (Some m) row column key \<Longrightarrow>
   map2_drop (Some m) row column key w = os_mut_release (map2_ptr (mut m) key) w"
  by (simp add: valid_index_Some map2_drop_def)

lemma map2_take_invalid:
  "\<not> valid_index mp row column key \<Longrightarrow>
   map2_take r mp row column key dst tout op w = (NULL, w)"
  by (cases mp) (auto simp: valid_index_Some map2_take_def)

lemma map2_take_timeout:
  "valid_index (Some m) row column key \<Longrightarrow>
   map2_take OS_R_TMO (Some m) row column key dst tout op w =
     (NULL, w\<lparr>trace := trace w @ [Mut_wait (map2_ptr (mut m) key) (wait_bound tout)]\<rparr>)"
  by (simp add: valid_index_Some map2_take_def os_mut_wait_def)

lemma release_after_wait:
  "os_mut_release (map2_ptr (mut m) key) (after_wait m key tout w) =
     w\<lparr>trace := trace w @ [Mut_wait (map2_ptr (mut m) key) (wait_bound tout),
                             Mut_release (map2_ptr (mut m) key)]\<rparr>"
  by (simp add: os_mut_release_def after_wait_def)

lemma map2_take_readonly:
  assumes "valid_index (Some m) row column key" "r \<noteq> OS_R_TMO"
  shows "map2_take r (Some m) row column key dst tout MAP2_OP_READONLY w =
     (dst, os_mut_release (map2_ptr (mut m) key)
        (if dst \<noteq> NULL \<and> map2_ptr (data m) (map2_pos m row column) \<noteq> NULL
         then memcpy dst (map2_ptr (data m) (map2_pos m row column)) (unat (field_size m))
                (after_wait m key tout w)
         else after_wait m key tout w))"
  using assms map2_drop_valid [OF assms(1)]
  by (simp add: valid_index_Some map2_take_def os_mut_wait_def after_wait_def Let_def)

lemma map2_take_readwrite:
  assumes "valid_index (Some m) row column key" "r \<noteq> OS_R_TMO"
  shows "map2_take r (Some m) row column key dst tout MAP2_OP_READWRITE w =
     (map2_ptr (data m) (map2_pos m row column),
      if map2_ptr (data m) (map2_pos m row column) = NULL
      then os_mut_release (map2_ptr (mut m) key) (after_wait m key tout w)
      else after_wait m key tout w)"
  using assms map2_drop_valid [OF assms(1)]
  by (simp add: valid_index_Some map2_take_def os_mut_wait_def after_wait_def Let_def)

subsection \<open>The forwarded timeout\<close>

lemma wait_bound_ge: "0xFFFF \<le> tout \<Longrightarrow> wait_bound tout = tout - 1"
  by (simp add: wait_bound_def)

lemma wait_bound_sentinel: "wait_bound 0xFFFF = 0xFFFE"
  by (simp add: wait_bound_def)

lemma wait_bound_below: "tout < 0xFFFF \<Longrightarrow> wait_bound tout = tout"
  by (simp add: wait_bound_def)

subsection \<open>Memory and ownership after each step\<close>

lemma in_region_offset: "i < n \<Longrightarrow> in_region p n (p + of_nat i)"
proof -
  assume "i < n"
  have "unat (of_nat i :: 32 word) \<le> i"
    by (simp add: unat_of_nat)
  with \<open>i < n\<close> show ?thesis by (simp add: in_region_def)
qed

lemma mem_memcpy_inside:
  "i < n \<Longrightarrow> mem (memcpy dst src n w) (dst + of_nat i) = mem w (src + of_nat i)"
  by (simp add: memcpy_def in_region_offset)

lemma mem_memcpy_outside:
  "\<not> in_region dst n a \<Longrightarrow> mem (memcpy dst src n w) a = mem w a"
  by (simp add: memcpy_def)

lemma held_memcpy [simp]: "held (memcpy dst src n w) = held w"
  by (simp add: memcpy_def)

lemma trace_memcpy [simp]: "trace (memcpy dst src n w) = trace w @ [Memcpy dst src n]"
  by (simp add: memcpy_def)

lemma mem_after_wait [simp]: "mem (after_wait m key tout w) = mem w"
  by (simp add: after_wait_def)

lemma mem_os_mut_release [simp]: "mem (os_mut_release x w) = mem w"
  by (simp add: os_mut_release_def)

lemma trace_os_mut_release [simp]: "trace (os_mut_release x w) = trace w @ [Mut_release x]"
  by (simp add: os_mut_release_def)

lemma held_after_wait:
  "held (after_wait m key tout w) = (held w)(map2_ptr (mut m) key := Suc (held w (map2_ptr (mut m) key)))"
  by (simp add: after_wait_def)

lemma trace_after_wait [simp]:
  "trace (after_wait m key tout w) = trace w @ [Mut_wait (map2_ptr (mut m) key) (wait_bound tout)]"
  by (simp add: after_wait_def)

lemma held_release_memcpy_after_wait:
  "held (os_mut_release (map2_ptr (mut m) key) (memcpy dst src n (after_wait m key tout w))) = held w"
  by (simp add: os_mut_release_def held_after_wait)

lemma mem_stores_other: "a \<notin> fst ` set ss \<Longrightarrow> mem (stores ss w) a = mem w a"
  unfolding stores_def
  by (induction ss arbitrary: w) (auto simp: store_byte_def)

lemma example_buffer_outside_grid:
  "\<forall>a. in_region 0x20001000 (unat (field_size example_map)) a \<longrightarrow>
        \<not> in_region (data example_map) (unat (data_size example_map)) a"
proof (intro allI impI)
  fix a :: addr
  assume "in_region 0x20001000 (unat (field_size example_map)) a"
  then have small: "unat (a - 0x20001000) < 8"
    by (simp add: in_region_def example_defs)
  have "a - 0x20000000 = (a - 0x20001000) + 0x1000" by simp
  moreover have "unat ((a - 0x20001000) + 0x1000) = unat (a - 0x20001000) + unat (0x1000 :: addr)"
    using small by (intro unat_add_lem [THEN iffD1]) simp
  ultimately have "unat (a - 0x20000000) = unat (a - 0x20001000) + 4096" by simp
  then show "\<not> in_region (data example_map) (unat (data_size example_map)) a"
    by (simp add: in_region_def example_defs)
qed

lemma example_buffer_outside_cell:
  "\<forall>a. in_region 0x20001000 (unat (field_size example_map)) a \<longrightarrow>
        \<not> in_region (data example_map + (1 + columns example_map * 1) * field_size example_map)
            (unat (field_size example_map)) a"
proof (intro allI impI)
  fix a :: addr
  assume "in_region 0x20001000 (unat (field_size example_map)) a"
  then have small: "unat (a - 0x20001000) < 8"
    by (simp add: in_region_def example_defs)
  have "a - 0x20000018 = (a - 0x20001000) + 0xFE8" by simp
  moreover have "unat ((a - 0x20001000) + 0xFE8) = unat (a - 0x20001000) + unat (0xFE8 :: addr)"
    using small by (intro unat_add_lem [THEN iffD1]) simp
  ultimately have "unat (a - 0x20000018) = unat (a - 0x20001000) + 4072" by simp
  then show "\<not> in_region (data example_map + (1 + columns example_map * 1) * field_size example_map)
      (unat (field_size example_map)) a"
    by (simp add: in_region_def example_defs)
qed

lemma example_cell_inside_grid:
  "\<forall>a. in_region (data example_map + (1 + columns example_map * 1) * field_size example_map)
          (unat (field_size example_map)) a \<longrightarrow>
        in_region (data example_map) (unat (data_size example_map)) a"
proof (intro allI impI)
  fix a :: addr
  assume "in_region (data example_map + (1 + columns example_map * 1) * field_size example_map)
          (unat (field_size example_map)) a"
  then have small: "unat (a - 0x20000018) < 8"
    by (simp add: in_region_def example_defs)
  have "a - 0x20000000 = (a - 0x20000018) + 0x18" by simp
  moreover have "unat ((a - 0x20000018) + 0x18) = unat (a - 0x20000018) + unat (0x18 :: addr)"
    using small by (intro unat_add_lem [THEN iffD1]) simp
  ultimately have "unat (a - 0x20000000) = unat (a - 0x20000018) + 24" by simp
  with small show "in_region (data example_map) (unat (data_size example_map)) a"
    by (simp add: in_region_def example_defs)
qed

subsection \<open>Arithmetic without overflow\<close>

lemma sint_of_nat_small:
  assumes "n < 2 ^ 31"
  shows "sint (of_nat n :: 32 word) = int n"
proof -
  have "int n < 2 ^ 31" using assms by (simp flip: of_nat_less_iff)
  then have "sint (word_of_int (int n) :: 32 word) = int n"
    by (intro sint_word_of_int_small) simp_all
  then show ?thesis by simp
qed

lemma unat_of_nat_small: "n < 2 ^ 32 \<Longrightarrow> unat (of_nat n :: 32 word) = n"
  by (simp add: unat_of_nat)

lemma cell_bound:
  fixes r c R C F :: int
  assumes "0 \<le> r" "r < R" "0 \<le> c" "c < C" "0 \<le> F"
  shows "0 \<le> (c + C * r) * F" and "(c + C * r) * F + F \<le> R * C * F"
proof -
  from assms have C0: "0 \<le> C" by simp
  from assms C0 show "0 \<le> (c + C * r) * F" by simp
  have "C * r \<le> C * (R - 1)"
    using assms(2) C0 by (intro mult_left_mono) simp_all
  then have "c + C * r + 1 \<le> C * R"
    using assms(4) by (simp add: algebra_simps)
  then have "(c + C * r + 1) * F \<le> (C * R) * F"
    using assms(5) by (rule mult_right_mono)
  then show "(c + C * r) * F + F \<le> R * C * F"
    by (simp add: algebra_simps)
qed

lemma map2_pos_of_int:
  "map2_pos m row column =
     word_of_int ((sint column + sint (columns m) * sint row) * sint (field_size m))"
  by (simp add: map2_pos_def)

lemma MAP2_fields:
  assumes "0 < sz" "nrows * ncolumns * sz < 2 ^ 31" "0 < nrows" "0 < ncolumns"
  shows "sint (rows (MAP2 sz base mb nrows ncolumns nkeys)) = int nrows"
    and "sint (columns (MAP2 sz base mb nrows ncolumns nkeys)) = int ncolumns"
    and "sint (field_size (MAP2 sz base mb nrows ncolumns nkeys)) = int sz"
    and "sint (data_size (MAP2 sz base mb nrows ncolumns nkeys)) = int nrows * int ncolumns * int sz"
    and "unat (data_size (MAP2 sz base mb nrows ncolumns nkeys)) = nrows * ncolumns * sz"
    and "unat (field_size (MAP2 sz base mb nrows ncolumns nkeys)) = sz"
proof -
  have a: "nrows \<le> nrows * ncolumns * sz" using assms(1,4) by simp
  have b: "ncolumns \<le> nrows * ncolumns * sz" using assms(1,3) by simp
  have c: "sz \<le> nrows * ncolumns * sz" using assms(3,4) by simp
  have lt: "nrows < 2 ^ 31" "ncolumns < 2 ^ 31" "sz < 2 ^ 31"
    using a b c assms(2) by (blast intro: order_le_less_trans)+
  show "sint (rows (MAP2 sz base mb nrows ncolumns nkeys)) = int nrows"
    using lt by (simp add: MAP2_def sint_of_nat_small)
  show "sint (columns (MAP2 sz base mb nrows ncolumns nkeys)) = int ncolumns"
    using lt by (simp add: MAP2_def sint_of_nat_small)
  show "sint (field_size (MAP2 sz base mb nrows ncolumns nkeys)) = int sz"
    using lt by (simp add: MAP2_def sint_of_nat_small)
  show "sint (data_size (MAP2 sz base mb nrows ncolumns nkeys)) = int nrows * int ncolumns * int sz"
    using assms(2) sint_of_nat_small [of "nrows * ncolumns * sz"] by (simp add: MAP2_def)
  show "unat (data_size (MAP2 sz base mb nrows ncolumns nkeys)) = nrows * ncolumns * sz"
    using assms(2) unat_of_nat_small [of "nrows * ncolumns * sz"] by (simp add: MAP2_def)
  show "unat (field_size (MAP2 sz base mb nrows ncolumns nkeys)) = sz"
    using lt unat_of_nat_small [of sz] by (simp add: MAP2_def)
qed

lemma MAP2_positive:
  assumes "0 \<le>s row" "row <s rows (MAP2 sz base mb nrows ncolumns nkeys)"
  shows "0 < nrows"
proof (rule ccontr)
  assume "\<not> 0 < nrows"
  then have "rows (MAP2 sz base mb nrows ncolumns nkeys) = 0" by (simp add: MAP2_def)
  with assms show False by (simp add: word_sle_eq word_sless_alt)
qed

lemma MAP2_positive_columns:
  assumes "0 \<le>s column" "column <s columns (MAP2 sz base mb nrows ncolumns nkeys)"
  shows "0 < ncolumns"
proof (rule ccontr)
  assume "\<not> 0 < ncolumns"
  then have "columns (MAP2 sz base mb nrows ncolumns nkeys) = 0" by (simp add: MAP2_def)
  with assms show False by (simp add: word_sle_eq word_sless_alt)
qed

lemma sdiv_nonneg: "0 \<le> (k::int) \<Longrightarrow> 0 \<le> l \<Longrightarrow> k sdiv l = k div l"
  by (cases "k = 0"; cases "l = 0") (simp_all add: signed_divide_int_def)

lemma foreach_item_eq: "foreach_item m sz i = data m + of_nat (i * sz)"
  by (induction i) (simp_all add: algebra_simps)

lemma c_div_nonneg:
  assumes "0 \<le> sint a" "0 \<le> sint b"
  shows "c_div a b = word_of_int (sint a div sint b)"
  using assms by (simp add: c_div_def sdiv_nonneg)

lemma c_mod_nonneg:
  assumes "0 \<le> sint a" "0 \<le> sint b"
  shows "c_mod a b = word_of_int (sint a mod sint b)"
  using assms by (simp add: c_mod_def smod_nonneg)

lemma map2_pos_words:
  "row = word_of_int r \<Longrightarrow> column = word_of_int c \<Longrightarrow>
   map2_pos m row column = word_of_int ((c + sint (columns m) * r) * sint (field_size m))"
  by (simp add: map2_pos_def)

section \<open>The timeout sentinel\<close>

text \<open>
  Claim C1. A timeout of \<open>0xFFFF\<close> or more is forwarded to \<^verbatim>\<open>os_mut_wait\<close> reduced
  by one (\<open>wait_bound_ge\<close>, and \<open>0xFFFF\<close> becomes \<open>0xFFFE\<close>: \<open>wait_bound_sentinel\<close>),
  and the claim concludes that the forwarded value is never the sentinel \<open>0xFFFF\<close>.
  The code does not achieve that: the caller's timeout \<open>0x10000\<close> is reduced to
  \<open>0xFFFF\<close>, and the only call the RTOS sees is a wait with exactly the sentinel.
\<close>

theorem map2_take_forwards_sentinel:
  "wait_bound 0x10000 = 0xFFFF \<and>
   trace (snd (map2_take OS_R_TMO (Some example_map) 1 1 1 0x20001000 0x10000
                 MAP2_OP_READONLY example_world))
     = [Mut_wait 0x20000101 0xFFFF]"
  by (simp add: map2_take_def os_mut_wait_def wait_bound_def example_defs map2_ptr_def)

section \<open>Failures leave the lock alone\<close>

text \<open>
  Claim C2. Whenever \<^verbatim>\<open>__map2_take\<close> returns \<^verbatim>\<open>NULL\<close>, the call leaves no lock held:
  the ownership of every mutex and the memory are what they were before the call, and
  the calls made are none (invalid arguments), a single wait that timed out, or a wait
  followed by the release of the same mutex.
\<close>

theorem map2_take_null_lock_not_held:
  assumes "fst (map2_take r mp row column key dst tout op w) = NULL"
  shows "held (snd (map2_take r mp row column key dst tout op w)) = held w \<and>
         mem (snd (map2_take r mp row column key dst tout op w)) = mem w \<and>
         (case mp of
            None \<Rightarrow> trace (snd (map2_take r mp row column key dst tout op w)) = trace w
          | Some m \<Rightarrow>
              trace (snd (map2_take r mp row column key dst tout op w)) = trace w \<or>
              r = OS_R_TMO \<and>
              trace (snd (map2_take r mp row column key dst tout op w)) =
                trace w @ [Mut_wait (map2_ptr (mut m) key) (wait_bound tout)] \<or>
              trace (snd (map2_take r mp row column key dst tout op w)) =
                trace w @ [Mut_wait (map2_ptr (mut m) key) (wait_bound tout),
                           Mut_release (map2_ptr (mut m) key)])"
proof (cases "valid_index mp row column key")
  case False
  then show ?thesis
    by (cases mp) (simp_all add: map2_take_invalid)
next
  case True
  then obtain m where mp: "mp = Some m" by (cases mp) (simp_all add: valid_index_def)
  show ?thesis
  proof (cases "r = OS_R_TMO")
    case True
    with \<open>valid_index mp row column key\<close> show ?thesis
      by (simp add: mp map2_take_timeout)
  next
    case False
    note ok = \<open>valid_index mp row column key\<close> [unfolded mp] False
    show ?thesis
    proof (cases op)
      case MAP2_OP_READONLY
      with assms have "dst = NULL" by (simp add: mp map2_take_readonly [OF ok])
      then show ?thesis
        by (simp add: mp MAP2_OP_READONLY map2_take_readonly [OF ok] release_after_wait)
    next
      case MAP2_OP_READWRITE
      with assms have "map2_ptr (data m) (map2_pos m row column) = NULL"
        by (simp add: mp map2_take_readwrite [OF ok])
      then show ?thesis
        by (simp add: mp MAP2_OP_READWRITE map2_take_readwrite [OF ok] release_after_wait)
    qed
  qed
qed

theorem map2_take_null_lock_not_held_witness:
  "fst (map2_take OS_R_TMO (Some example_map) 1 1 1 0x20001000 100 MAP2_OP_READWRITE
          example_world) = NULL \<and>
   held (snd (map2_take OS_R_TMO (Some example_map) 1 1 1 0x20001000 100 MAP2_OP_READWRITE
          example_world)) = held example_world \<and>
   fst (map2_take OS_R_OK (Some example_map) 1 1 1 NULL 100 MAP2_OP_READONLY
          example_world) = NULL \<and>
   held (snd (map2_take OS_R_OK (Some example_map) 1 1 1 NULL 100 MAP2_OP_READONLY
          example_world)) = held example_world \<and>
   trace (snd (map2_take OS_R_OK (Some example_map) 1 1 1 NULL 100 MAP2_OP_READONLY
          example_world)) = [Mut_wait 0x20000101 100, Mut_release 0x20000101] \<and>
   fst (map2_take OS_R_MUT (Some (example_map\<lparr>data := NULL\<rparr>)) 0 0 0 NULL 100
          MAP2_OP_READWRITE example_world) = NULL \<and>
   held (snd (map2_take OS_R_MUT (Some (example_map\<lparr>data := NULL\<rparr>)) 0 0 0 NULL 100
          MAP2_OP_READWRITE example_world)) = held example_world"
proof -
  have a: "fst (map2_take OS_R_TMO (Some example_map) 1 1 1 0x20001000 100 MAP2_OP_READWRITE
          example_world) = NULL"
    by (simp add: take_eval example_defs)
  have b: "fst (map2_take OS_R_OK (Some example_map) 1 1 1 NULL 100 MAP2_OP_READONLY
          example_world) = NULL"
    by (simp add: take_eval example_defs)
  have c: "fst (map2_take OS_R_MUT (Some (example_map\<lparr>data := NULL\<rparr>)) 0 0 0 NULL 100
          MAP2_OP_READWRITE example_world) = NULL"
    by (simp add: take_eval example_defs)
  have t: "trace (snd (map2_take OS_R_OK (Some example_map) 1 1 1 NULL 100 MAP2_OP_READONLY
          example_world)) = [Mut_wait 0x20000101 100, Mut_release 0x20000101]"
    by (simp add: take_eval example_defs)
  show ?thesis
    using a b c t map2_take_null_lock_not_held [OF a] map2_take_null_lock_not_held [OF b]
      map2_take_null_lock_not_held [OF c]
    by simp
qed

section \<open>Invalid arguments\<close>

text \<open>
  Claim C3. If the map pointer is \<^verbatim>\<open>NULL\<close>, or the row, the column or the key is out
  of range, \<^verbatim>\<open>__map2_take\<close> returns \<^verbatim>\<open>NULL\<close> and the world is the one it was called
  in: no call to \<^verbatim>\<open>os_mut_wait\<close> or \<^verbatim>\<open>memcpy\<close> is recorded, no mutex changes owner,
  and no byte of memory changes.
\<close>

theorem map2_take_invalid_untouched:
  assumes "\<not> valid_index mp row column key"
  shows "map2_take r mp row column key dst tout op w = (NULL, w)"
  using assms by (rule map2_take_invalid)

theorem map2_take_invalid_untouched_witness:
  "\<not> valid_index (Some example_map) 4 0 0 \<and>
   map2_take OS_R_OK (Some example_map) 4 0 0 0x20001000 100 MAP2_OP_READONLY example_world
     = (NULL, example_world) \<and>
   \<not> valid_index (Some example_map) 0 2 0 \<and>
   map2_take OS_R_OK (Some example_map) 0 2 0 0x20001000 100 MAP2_OP_READWRITE example_world
     = (NULL, example_world) \<and>
   \<not> valid_index (Some example_map) 0 0 2 \<and>
   map2_take OS_R_OK (Some example_map) 0 0 2 0x20001000 100 MAP2_OP_READONLY example_world
     = (NULL, example_world) \<and>
   \<not> valid_index (Some example_map) (- 1) 0 0 \<and>
   map2_take OS_R_OK (Some example_map) (- 1) 0 0 0x20001000 100 MAP2_OP_READONLY example_world
     = (NULL, example_world) \<and>
   \<not> valid_index None 0 0 0 \<and>
   map2_take OS_R_OK None 0 0 0 0x20001000 100 MAP2_OP_READONLY example_world
     = (NULL, example_world)"
proof -
  have a: "\<not> valid_index (Some example_map) 4 0 0"
    by (simp add: valid_index_def example_defs)
  have b: "\<not> valid_index (Some example_map) 0 2 0"
    by (simp add: valid_index_def example_defs)
  have c: "\<not> valid_index (Some example_map) 0 0 2"
    by (simp add: valid_index_def example_defs)
  have d: "\<not> valid_index (Some example_map) (- 1) 0 0"
    by (simp add: valid_index_def example_defs)
  have e: "\<not> valid_index None 0 0 0"
    by (simp add: valid_index_def)
  show ?thesis
    using a b c d e
      map2_take_invalid_untouched [OF a] map2_take_invalid_untouched [OF b]
      map2_take_invalid_untouched [OF c] map2_take_invalid_untouched [OF d]
      map2_take_invalid_untouched [OF e]
    by simp
qed

section \<open>Partition selection\<close>

text \<open>
  Claim C4. For a valid row (and \<^verbatim>\<open>UART_INSTANCES == 2\<close>, the configuration the
  function is documented for), \<^verbatim>\<open>map2_key\<close> returns 0 for a map with one key,
  \<open>row mod 2\<close> for a map with two keys, and for a map with three keys 2 when the row is
  at or beyond \<^verbatim>\<open>SLOT_CNT * SLOT_CH\<close> and \<open>row mod 2\<close> below it.
\<close>

theorem map2_key_valid_row:
  assumes "0 \<le>s row" "row <s rows m" "UART_INSTANCES cfg = 2"
  shows "(keys m = MAP2_NKEYS_1 \<longrightarrow> map2_key cfg (Some m) row = 0) \<and>
         (keys m = MAP2_NKEYS_2 \<longrightarrow> sint (map2_key cfg (Some m) row) = sint row mod 2) \<and>
         (keys m = MAP2_NKEYS_3 \<and> SLOT_CNT cfg * SLOT_CH cfg \<le>s row \<longrightarrow>
            map2_key cfg (Some m) row = 2) \<and>
         (keys m = MAP2_NKEYS_3 \<and> row <s SLOT_CNT cfg * SLOT_CH cfg \<longrightarrow>
            sint (map2_key cfg (Some m) row) = sint row mod 2)"
proof -
  from assms(1,2) have inr: "\<not> (row <s 0 \<or> rows m \<le>s row)"
    by (simp add: word_sle_eq word_sless_alt)
  have k1: "keys m = MAP2_NKEYS_1 \<Longrightarrow> map2_key cfg (Some m) row = 0"
    using inr by (simp add: map2_key_def)
  have k2: "keys m = MAP2_NKEYS_2 \<Longrightarrow> sint (map2_key cfg (Some m) row) = sint row mod 2"
    using inr assms(3) even_odd_rule [OF assms(1)]
    by (simp add: map2_key_def MAP2_NKEYS_1_def MAP2_NKEYS_2_def MAP2_NKEYS_3_def)
  have k3: "keys m = MAP2_NKEYS_3 \<Longrightarrow> SLOT_CNT cfg * SLOT_CH cfg \<le>s row \<Longrightarrow>
              map2_key cfg (Some m) row = 2"
    using inr by (simp add: map2_key_def MAP2_NKEYS_1_def MAP2_NKEYS_3_def)
  have k4: "keys m = MAP2_NKEYS_3 \<Longrightarrow> row <s SLOT_CNT cfg * SLOT_CH cfg \<Longrightarrow>
              sint (map2_key cfg (Some m) row) = sint row mod 2"
    using inr assms(3) even_odd_rule [OF assms(1)]
    by (simp add: map2_key_def MAP2_NKEYS_1_def MAP2_NKEYS_3_def not_sless_iff [symmetric])
  from k1 k2 k3 k4 show ?thesis by blast
qed

theorem map2_key_valid_row_witness:
  "keys example_map = MAP2_NKEYS_2 \<and>
   sint (map2_key example_config (Some example_map) 3) = 1 \<and>
   map2_key example_config (Some (example_map\<lparr>keys := MAP2_NKEYS_1\<rparr>)) 3 = 0 \<and>
   SLOT_CNT example_config * SLOT_CH example_config \<le>s 3 \<and>
   map2_key example_config (Some (example_map\<lparr>keys := MAP2_NKEYS_3\<rparr>)) 3 = 2 \<and>
   1 <s SLOT_CNT example_config * SLOT_CH example_config \<and>
   sint (map2_key example_config (Some (example_map\<lparr>keys := MAP2_NKEYS_3\<rparr>)) 1) = 1"
proof -
  have r3: "(0 :: int32) \<le>s 3" and r1: "(0 :: int32) \<le>s 1" by (simp_all add: word_sle_eq)
  have u: "UART_INSTANCES example_config = 2" by (simp add: example_config_def)
  have a: "3 <s rows example_map" "keys example_map = MAP2_NKEYS_2"
    by (simp_all add: example_defs)
  have b: "3 <s rows (example_map\<lparr>keys := MAP2_NKEYS_1\<rparr>)"
    "keys (example_map\<lparr>keys := MAP2_NKEYS_1\<rparr>) = MAP2_NKEYS_1"
    by (simp_all add: example_defs)
  have c: "3 <s rows (example_map\<lparr>keys := MAP2_NKEYS_3\<rparr>)"
    "keys (example_map\<lparr>keys := MAP2_NKEYS_3\<rparr>) = MAP2_NKEYS_3"
    "SLOT_CNT example_config * SLOT_CH example_config \<le>s 3"
    by (simp_all add: example_defs)
  have d: "1 <s rows (example_map\<lparr>keys := MAP2_NKEYS_3\<rparr>)"
    "1 <s SLOT_CNT example_config * SLOT_CH example_config"
    by (simp_all add: example_defs)
  show ?thesis
    using map2_key_valid_row [OF r3 a(1) u] a(2)
      map2_key_valid_row [OF r3 b(1) u] b(2)
      map2_key_valid_row [OF r3 c(1) u] c(2,3)
      map2_key_valid_row [OF r1 d(1) u] d(2)
    by simp
qed

text \<open>
  Claim C5 says that \<^verbatim>\<open>map2_key\<close> returns 0 for an invalid row and also for a
  partition count that is not 1, 2 or 3. The second half fails: the function never
  inspects the count beyond comparing it with 1 and 3, so a map with five keys sends the
  valid row 1 to partition 1.
\<close>

theorem map2_key_invalid_keys_counterexample:
  "(0 :: int32) \<le>s 1 \<and> 1 <s rows (example_map\<lparr>keys := 5\<rparr>) \<and>
   keys (example_map\<lparr>keys := 5\<rparr>) = 5 \<and>
   map2_key example_config (Some (example_map\<lparr>keys := 5\<rparr>)) 1 = 1"
  by (simp add: map2_key_def example_defs c_mod_def smod_int_alt_def)

text \<open>
  Claim C5, amended. \<^verbatim>\<open>map2_key\<close> returns 0 when the map pointer is \<^verbatim>\<open>NULL\<close> or the
  row is negative or not below \<open>rows\<close>. For a valid row and a partition count other than
  1, 2 and 3 the even/odd rule applies: 0 when \<^verbatim>\<open>row % UART_INSTANCES\<close> is 0, and 1
  otherwise.
\<close>

theorem map2_key_fallback:
  "map2_key cfg None row = 0 \<and>
   (row <s 0 \<or> rows m \<le>s row \<longrightarrow> map2_key cfg (Some m) row = 0) \<and>
   (0 \<le>s row \<and> row <s rows m \<and>
    keys m \<noteq> MAP2_NKEYS_1 \<and> keys m \<noteq> MAP2_NKEYS_2 \<and> keys m \<noteq> MAP2_NKEYS_3 \<longrightarrow>
      map2_key cfg (Some m) row = (if c_mod row (UART_INSTANCES cfg) = 0 then 0 else 1))"
  by (auto simp: map2_key_def not_sless_iff [symmetric] word_sless_alt word_sle_eq)

theorem map2_key_fallback_witness:
  "(- 1 :: int32) <s 0 \<and>
   map2_key example_config (Some example_map) (- 1) = 0 \<and>
   rows example_map \<le>s 4 \<and>
   map2_key example_config (Some example_map) 4 = 0 \<and>
   map2_key example_config (Some (example_map\<lparr>keys := 5\<rparr>)) 1 = 1 \<and>
   map2_key example_config (Some (example_map\<lparr>keys := 5\<rparr>)) 2 = 0"
proof -
  have a: "(- 1 :: int32) <s 0" by (simp add: word_sless_alt)
  have b: "rows example_map \<le>s 4" by (simp add: example_defs)
  have c: "(0 :: int32) \<le>s 1 \<and> 1 <s rows (example_map\<lparr>keys := 5\<rparr>) \<and>
     keys (example_map\<lparr>keys := 5\<rparr>) \<noteq> MAP2_NKEYS_1 \<and>
     keys (example_map\<lparr>keys := 5\<rparr>) \<noteq> MAP2_NKEYS_2 \<and>
     keys (example_map\<lparr>keys := 5\<rparr>) \<noteq> MAP2_NKEYS_3"
    by (simp add: example_defs)
  have d: "(0 :: int32) \<le>s 2 \<and> 2 <s rows (example_map\<lparr>keys := 5\<rparr>) \<and>
     keys (example_map\<lparr>keys := 5\<rparr>) \<noteq> MAP2_NKEYS_1 \<and>
     keys (example_map\<lparr>keys := 5\<rparr>) \<noteq> MAP2_NKEYS_2 \<and>
     keys (example_map\<lparr>keys := 5\<rparr>) \<noteq> MAP2_NKEYS_3"
    by (simp add: example_defs)
  have e: "c_mod 1 (UART_INSTANCES example_config) = 1"
    "c_mod 2 (UART_INSTANCES example_config) = 0"
    by (simp_all add: c_mod_def example_config_def smod_int_alt_def)
  show ?thesis
    using a b c d
      map2_key_fallback [of example_config "- 1" example_map]
      map2_key_fallback [of example_config 4 example_map]
      map2_key_fallback [of example_config 1 "example_map\<lparr>keys := 5\<rparr>"]
      map2_key_fallback [of example_config 2 "example_map\<lparr>keys := 5\<rparr>"]
    by (simp add: e)
qed

section \<open>Read-only access\<close>

text \<open>
  Claim C6. For valid indices, a granted lock, a destination and a cell that are not
  \<^verbatim>\<open>NULL\<close> and do not overlap, a read-only \<^verbatim>\<open>__map2_take\<close> returns the
  destination pointer; the \<^verbatim>\<open>field_size\<close> bytes of the cell at offset \<open>(column + columns * row) * field_size\<close>
  are now in the destination and no other byte of memory has changed; the calls made are
  the wait, the \<^verbatim>\<open>memcpy\<close> of \<^verbatim>\<open>field_size\<close> bytes and the release of the same mutex,
  in this order, so that every mutex has the owner it had before the call. The success
  block of \<^verbatim>\<open>map2_readonly_trycatch\<close> starts in that world, with the lock released.
\<close>

theorem map2_take_readonly_copies_then_releases:
  assumes "valid_index (Some m) row column key" "r \<noteq> OS_R_TMO" "dst \<noteq> NULL"
    and "data m + (column + columns m * row) * field_size m \<noteq> NULL"
    and "\<forall>a. in_region dst (unat (field_size m)) a \<longrightarrow>
             \<not> in_region (data m + (column + columns m * row) * field_size m)
                 (unat (field_size m)) a"
  shows "fst (map2_take r (Some m) row column key dst tout MAP2_OP_READONLY w) = dst \<and>
    (\<forall>i < unat (field_size m).
       mem (snd (map2_take r (Some m) row column key dst tout MAP2_OP_READONLY w)) (dst + of_nat i)
       = mem w (data m + (column + columns m * row) * field_size m + of_nat i)) \<and>
    (\<forall>a. \<not> in_region dst (unat (field_size m)) a \<longrightarrow>
       mem (snd (map2_take r (Some m) row column key dst tout MAP2_OP_READONLY w)) a = mem w a) \<and>
    trace (snd (map2_take r (Some m) row column key dst tout MAP2_OP_READONLY w))
      = trace w @ [Mut_wait (map2_ptr (mut m) key) (wait_bound tout),
                   Memcpy dst (data m + (column + columns m * row) * field_size m)
                     (unat (field_size m)),
                   Mut_release (map2_ptr (mut m) key)] \<and>
    held (snd (map2_take r (Some m) row column key dst tout MAP2_OP_READONLY w)) = held w \<and>
    map2_readonly_trycatch r (Some m) row column key dst tout fnc err w
      = fnc (snd (map2_take r (Some m) row column key dst tout MAP2_OP_READONLY w))"
proof -
  let ?src = "data m + (column + columns m * row) * field_size m"
  have src: "map2_ptr (data m) (map2_pos m row column) = ?src"
    by (simp add: map2_ptr_def map2_pos_def)
  have take: "map2_take r (Some m) row column key dst tout MAP2_OP_READONLY w =
      (dst, os_mut_release (map2_ptr (mut m) key)
              (memcpy dst ?src (unat (field_size m)) (after_wait m key tout w)))"
    using assms(3,4) by (simp add: map2_take_readonly [OF assms(1,2)] src)
  have macro: "map2_readonly_trycatch r (Some m) row column key dst tout fnc err w
      = fnc (snd (map2_take r (Some m) row column key dst tout MAP2_OP_READONLY w))"
    using assms(3) by (simp add: map2_readonly_trycatch_def take)
  show ?thesis
    by (simp add: macro)
       (simp add: take mem_memcpy_inside mem_memcpy_outside held_release_memcpy_after_wait)
qed

theorem map2_take_readonly_copies_then_releases_witness:
  "valid_index (Some example_map) 1 1 1 \<and>
   fst (map2_take OS_R_OK (Some example_map) 1 1 1 0x20001000 2000 MAP2_OP_READONLY
          example_world) = 0x20001000 \<and>
   mem (snd (map2_take OS_R_OK (Some example_map) 1 1 1 0x20001000 2000 MAP2_OP_READONLY
          example_world)) 0x20001003 = mem example_world 0x2000001B \<and>
   mem example_world 0x2000001B = 0x1B \<and>
   mem (snd (map2_take OS_R_OK (Some example_map) 1 1 1 0x20001000 2000 MAP2_OP_READONLY
          example_world)) 0x20001008 = mem example_world 0x20001008 \<and>
   trace (snd (map2_take OS_R_OK (Some example_map) 1 1 1 0x20001000 2000 MAP2_OP_READONLY
          example_world))
     = [Mut_wait 0x20000101 2000, Memcpy 0x20001000 0x20000018 8, Mut_release 0x20000101] \<and>
   held (snd (map2_take OS_R_OK (Some example_map) 1 1 1 0x20001000 2000 MAP2_OP_READONLY
          example_world)) = held example_world"
proof -
  let ?t = "map2_take OS_R_OK (Some example_map) 1 1 1 0x20001000 2000 MAP2_OP_READONLY
              example_world"
  let ?src = "data example_map + (1 + columns example_map * 1) * field_size example_map"
  have v: "valid_index (Some example_map) 1 1 1"
    by (simp add: valid_index_def example_defs)
  have r: "OS_R_OK \<noteq> OS_R_TMO" by simp
  have d: "(0x20001000 :: addr) \<noteq> NULL" by simp
  have e: "?src = 0x20000018" "unat (field_size example_map) = 8"
    "map2_ptr (mut example_map) 1 = 0x20000101" "wait_bound 2000 = 2000"
    "mem example_world 0x2000001B = 0x1B" "trace example_world = []"
    by (simp_all add: example_defs map2_ptr_def wait_bound_def)
  have s: "?src \<noteq> NULL" by (simp only: e) simp
  have i: "3 < unat (field_size example_map)" by (simp add: e)
  have o: "\<not> in_region 0x20001000 (unat (field_size example_map)) 0x20001008"
    by (simp add: e in_region_def)
  note T = map2_take_readonly_copies_then_releases [OF v r d s example_buffer_outside_cell,
      where tout = 2000 and w = example_world and fnc = "\<lambda>w. w" and err = "\<lambda>w. w"]
  from T have c1: "fst ?t = 0x20001000" by (rule conjunct1)
  from T i have "mem (snd ?t) (0x20001000 + of_nat 3) = mem example_world (?src + of_nat 3)"
    by blast
  then have c2: "mem (snd ?t) 0x20001003 = mem example_world 0x2000001B"
    by (simp only: e(1)) simp
  from T o have c3: "mem (snd ?t) 0x20001008 = mem example_world 0x20001008"
    by blast
  from T have c4: "trace (snd ?t) =
      [Mut_wait 0x20000101 2000, Memcpy 0x20001000 0x20000018 8, Mut_release 0x20000101]"
    by (simp only: e) simp
  from T have c5: "held (snd ?t) = held example_world" by simp
  from v c1 c2 e(5) c3 c4 c5 show ?thesis by blast
qed

text \<open>
  Claim C7. After a successful read-only access to a cell of the grid, into a buffer
  that lies outside the grid, the copy is a snapshot: later stores into the buffer leave every byte of the
  grid as it was, and later stores into the grid leave the copied bytes equal to the
  cell as it was at the call. The pointer returned is the caller's, not one into the
  grid.
\<close>

theorem map2_take_readonly_snapshot:
  assumes "valid_index (Some m) row column key" "r \<noteq> OS_R_TMO" "dst \<noteq> NULL"
    and "data m + (column + columns m * row) * field_size m \<noteq> NULL"
    and "\<forall>a. in_region dst (unat (field_size m)) a \<longrightarrow>
             \<not> in_region (data m) (unat (data_size m)) a"
    and "\<forall>a. in_region (data m + (column + columns m * row) * field_size m)
               (unat (field_size m)) a \<longrightarrow>
             in_region (data m) (unat (data_size m)) a"
  shows "fst (map2_take r (Some m) row column key dst tout MAP2_OP_READONLY w) = dst \<and>
    ((\<forall>a \<in> fst ` set ss. in_region dst (unat (field_size m)) a) \<longrightarrow>
       (\<forall>g. in_region (data m) (unat (data_size m)) g \<longrightarrow>
          mem (stores ss (snd (map2_take r (Some m) row column key dst tout MAP2_OP_READONLY w))) g
          = mem w g)) \<and>
    ((\<forall>a \<in> fst ` set ss. in_region (data m) (unat (data_size m)) a) \<longrightarrow>
       (\<forall>i < unat (field_size m).
          mem (stores ss (snd (map2_take r (Some m) row column key dst tout MAP2_OP_READONLY w)))
            (dst + of_nat i)
          = mem w (data m + (column + columns m * row) * field_size m + of_nat i)))"
proof -
  let ?src = "data m + (column + columns m * row) * field_size m"
  let ?n = "unat (field_size m)"
  let ?w' = "snd (map2_take r (Some m) row column key dst tout MAP2_OP_READONLY w)"
  have src: "map2_ptr (data m) (map2_pos m row column) = ?src"
    by (simp add: map2_ptr_def map2_pos_def)
  have take: "map2_take r (Some m) row column key dst tout MAP2_OP_READONLY w =
      (dst, os_mut_release (map2_ptr (mut m) key)
              (memcpy dst ?src ?n (after_wait m key tout w)))"
    using assms(3,4) by (simp add: map2_take_readonly [OF assms(1,2)] src)
  have inside: "mem ?w' (dst + of_nat i) = mem w (?src + of_nat i)" if "i < ?n" for i
    using that by (simp add: take mem_memcpy_inside)
  have outside: "mem ?w' a = mem w a" if "\<not> in_region dst ?n a" for a
    using that by (simp add: take mem_memcpy_outside)
  have grid: "mem (stores ss ?w') g = mem w g"
    if ss: "\<forall>a \<in> fst ` set ss. in_region dst ?n a"
      and g: "in_region (data m) (unat (data_size m)) g" for g
  proof -
    from g assms(5) have ng: "\<not> in_region dst ?n g" by blast
    with ss have "g \<notin> fst ` set ss" by blast
    then have "mem (stores ss ?w') g = mem ?w' g" by (rule mem_stores_other)
    with ng show ?thesis by (simp add: outside)
  qed
  have copy: "mem (stores ss ?w') (dst + of_nat i) = mem w (?src + of_nat i)"
    if ss: "\<forall>a \<in> fst ` set ss. in_region (data m) (unat (data_size m)) a"
      and i: "i < ?n" for i
  proof -
    from i have "in_region dst ?n (dst + of_nat i)" by (rule in_region_offset)
    with assms(5) have "\<not> in_region (data m) (unat (data_size m)) (dst + of_nat i)" by blast
    with ss have "dst + of_nat i \<notin> fst ` set ss" by blast
    then have "mem (stores ss ?w') (dst + of_nat i) = mem ?w' (dst + of_nat i)"
      by (rule mem_stores_other)
    with i show ?thesis by (simp add: inside)
  qed
  have "fst (map2_take r (Some m) row column key dst tout MAP2_OP_READONLY w) = dst"
    by (simp add: take)
  with grid copy show ?thesis by blast
qed

theorem map2_take_readonly_snapshot_witness:
  "valid_index (Some example_map) 1 1 1 \<and>
   in_region 0x20001000 (unat (field_size example_map)) 0x20001001 \<and>
   in_region (data example_map) (unat (data_size example_map)) 0x20000018 \<and>
   mem (stores [(0x20001001, 0xAA)]
          (snd (map2_take OS_R_OK (Some example_map) 1 1 1 0x20001000 2000 MAP2_OP_READONLY
                  example_world))) 0x20000018 = mem example_world 0x20000018 \<and>
   mem (stores [(0x20000018, 0x55)]
          (snd (map2_take OS_R_OK (Some example_map) 1 1 1 0x20001000 2000 MAP2_OP_READONLY
                  example_world))) 0x20001002 = mem example_world 0x2000001A"
proof -
  let ?t = "map2_take OS_R_OK (Some example_map) 1 1 1 0x20001000 2000 MAP2_OP_READONLY
              example_world"
  let ?src = "data example_map + (1 + columns example_map * 1) * field_size example_map"
  have v: "valid_index (Some example_map) 1 1 1"
    by (simp add: valid_index_def example_defs)
  have r: "OS_R_OK \<noteq> OS_R_TMO" by simp
  have d: "(0x20001000 :: addr) \<noteq> NULL" by simp
  have e: "?src = 0x20000018" by (simp add: example_defs)
  have s: "?src \<noteq> NULL" by (simp only: e) simp
  have a: "in_region 0x20001000 (unat (field_size example_map)) 0x20001001"
    and g: "in_region (data example_map) (unat (data_size example_map)) 0x20000018"
    and i: "2 < unat (field_size example_map)"
    by (simp_all add: in_region_def example_defs)
  note T1 = map2_take_readonly_snapshot [OF v r d s example_buffer_outside_grid
      example_cell_inside_grid,
      where ss = "[(0x20001001, 0xAA)]" and tout = 2000 and w = example_world]
  note T2 = map2_take_readonly_snapshot [OF v r d s example_buffer_outside_grid
      example_cell_inside_grid,
      where ss = "[(0x20000018, 0x55)]" and tout = 2000 and w = example_world]
  from T1 a g have c1: "mem (stores [(0x20001001, 0xAA)] (snd ?t)) 0x20000018
      = mem example_world 0x20000018"
    by simp
  from T2 g have "\<forall>i < unat (field_size example_map).
      mem (stores [(0x20000018, 0x55)] (snd ?t)) (0x20001000 + of_nat i)
      = mem example_world (?src + of_nat i)"
    by simp
  with i have "mem (stores [(0x20000018, 0x55)] (snd ?t)) (0x20001000 + of_nat 2)
      = mem example_world (?src + of_nat 2)"
    by blast
  then have c2: "mem (stores [(0x20000018, 0x55)] (snd ?t)) 0x20001002
      = mem example_world 0x2000001A"
    by (simp only: e) simp
  from v a g c1 c2 show ?thesis by blast
qed

section \<open>Read-write access\<close>

text \<open>
  Claim C8. For valid indices and a granted lock, a read-write \<^verbatim>\<open>__map2_take\<close>
  returns the address of the cell, \<open>data + (column + columns * row) * field_size\<close>.
  When that address is not \<^verbatim>\<open>NULL\<close>, the only call made is the wait, so the mutex is
  held once more on return, and \<^verbatim>\<open>map2_readwrite_trycatch\<close> releases it after the
  caller's block has run: the release is the last call of the macro.
\<close>

theorem map2_take_readwrite_holds_lock:
  assumes "valid_index (Some m) row column key" "r \<noteq> OS_R_TMO"
  shows "fst (map2_take r (Some m) row column key dst tout MAP2_OP_READWRITE w)
      = data m + (column + columns m * row) * field_size m \<and>
    (data m + (column + columns m * row) * field_size m \<noteq> NULL \<longrightarrow>
       snd (map2_take r (Some m) row column key dst tout MAP2_OP_READWRITE w)
         = after_wait m key tout w \<and>
       held (after_wait m key tout w) (map2_ptr (mut m) key)
         = Suc (held w (map2_ptr (mut m) key)) \<and>
       map2_readwrite_trycatch r (Some m) row column key dst tout fnc err w
         = os_mut_release (map2_ptr (mut m) key)
             (fnc (data m + (column + columns m * row) * field_size m)
                (after_wait m key tout w)) \<and>
       trace (map2_readwrite_trycatch r (Some m) row column key dst tout fnc err w)
         = trace (fnc (data m + (column + columns m * row) * field_size m)
                    (after_wait m key tout w))
           @ [Mut_release (map2_ptr (mut m) key)])"
proof -
  let ?src = "data m + (column + columns m * row) * field_size m"
  have src: "map2_ptr (data m) (map2_pos m row column) = ?src"
    by (simp add: map2_ptr_def map2_pos_def)
  note take = map2_take_readwrite [OF assms, unfolded src]
  have p: "fst (map2_take r (Some m) row column key dst tout MAP2_OP_READWRITE w) = ?src"
    by (simp add: take)
  have q: "snd (map2_take r (Some m) row column key dst tout MAP2_OP_READWRITE w)
      = after_wait m key tout w" if "?src \<noteq> NULL"
    using that by (simp add: take)
  have h: "held (after_wait m key tout w) (map2_ptr (mut m) key)
      = Suc (held w (map2_ptr (mut m) key))"
    by (simp add: held_after_wait)
  have t: "map2_readwrite_trycatch r (Some m) row column key dst tout fnc err w
      = os_mut_release (map2_ptr (mut m) key) (fnc ?src (after_wait m key tout w))"
    if "?src \<noteq> NULL"
    using that by (simp add: map2_readwrite_trycatch_def take map2_drop_valid [OF assms(1)])
  from p q h t show ?thesis by simp
qed

theorem map2_take_readwrite_holds_lock_witness:
  "valid_index (Some example_map) 1 1 1 \<and>
   fst (map2_take OS_R_OK (Some example_map) 1 1 1 NULL 2000 MAP2_OP_READWRITE example_world)
     = 0x20000018 \<and>
   trace (snd (map2_take OS_R_OK (Some example_map) 1 1 1 NULL 2000 MAP2_OP_READWRITE
                 example_world)) = [Mut_wait 0x20000101 2000] \<and>
   held (snd (map2_take OS_R_OK (Some example_map) 1 1 1 NULL 2000 MAP2_OP_READWRITE
                 example_world)) 0x20000101 = 1 \<and>
   trace (map2_readwrite_trycatch OS_R_OK (Some example_map) 1 1 1 NULL 2000
            (\<lambda>p. store_byte p 0x2A) (\<lambda>w. w) example_world)
     = [Mut_wait 0x20000101 2000, Mut_release 0x20000101]"
proof -
  let ?t = "map2_take OS_R_OK (Some example_map) 1 1 1 NULL 2000 MAP2_OP_READWRITE example_world"
  let ?src = "data example_map + (1 + columns example_map * 1) * field_size example_map"
  have v: "valid_index (Some example_map) 1 1 1"
    by (simp add: valid_index_def example_defs)
  have r: "OS_R_OK \<noteq> OS_R_TMO" by simp
  have e: "?src = 0x20000018" "map2_ptr (mut example_map) 1 = 0x20000101"
    "wait_bound 2000 = 2000" "trace example_world = []" "held example_world 0x20000101 = 0"
    by (simp_all add: example_defs map2_ptr_def wait_bound_def)
  have s: "?src \<noteq> NULL" by (simp only: e) simp
  note T = map2_take_readwrite_holds_lock [OF v r, of NULL 2000 example_world "\<lambda>p. store_byte p 0x2A" "\<lambda>w. w"]
  from T have c1: "fst ?t = 0x20000018" by (simp only: e)
  from T s have c2: "snd ?t = after_wait example_map 1 2000 example_world" by blast
  have c3: "trace (snd ?t) = [Mut_wait 0x20000101 2000]"
    by (simp add: c2 e)
  from T s have "held (after_wait example_map 1 2000 example_world) (map2_ptr (mut example_map) 1)
      = Suc (held example_world (map2_ptr (mut example_map) 1))" by blast
  then have c4: "held (snd ?t) 0x20000101 = 1" by (simp add: c2 e)
  from T s have "trace (map2_readwrite_trycatch OS_R_OK (Some example_map) 1 1 1 NULL 2000
            (\<lambda>p. store_byte p 0x2A) (\<lambda>w. w) example_world)
     = trace (store_byte ?src 0x2A (after_wait example_map 1 2000 example_world))
         @ [Mut_release (map2_ptr (mut example_map) 1)]" by blast
  then have c5: "trace (map2_readwrite_trycatch OS_R_OK (Some example_map) 1 1 1 NULL 2000
            (\<lambda>p. store_byte p 0x2A) (\<lambda>w. w) example_world)
     = [Mut_wait 0x20000101 2000, Mut_release 0x20000101]"
    by (simp add: e store_byte_def)
  from v c1 c3 c4 c5 show ?thesis by blast
qed

section \<open>Offsets\<close>

subsection \<open>Every cell lies inside the grid\<close>

text \<open>
  Claim C9. For a map created by \<^verbatim>\<open>MAP2\<close>, whose array of
  \<open>nrows * ncolumns * sizeof(data_type)\<close> bytes has a size that an \<^verbatim>\<open>int\<close> can hold (it is
  stored in the \<^verbatim>\<open>int\<close> field \<^verbatim>\<open>data_size\<close>), and for every valid row and column, the
  offset computed by \<^verbatim>\<open>map2_pos\<close> is not negative and
  \<open>offset + field_size \<le> data_size\<close>; each of the \<^verbatim>\<open>field_size\<close> bytes of the cell that
  \<^verbatim>\<open>__map2_take\<close> addresses lies inside the backing buffer.
\<close>

theorem map2_pos_within_buffer:
  assumes sz: "0 < sz" and fits: "nrows * ncolumns * sz < 2 ^ 31"
    and row: "0 \<le>s row" "row <s rows (MAP2 sz base mb nrows ncolumns nkeys)"
    and col: "0 \<le>s column" "column <s columns (MAP2 sz base mb nrows ncolumns nkeys)"
  shows "0 \<le> sint (map2_pos (MAP2 sz base mb nrows ncolumns nkeys) row column) \<and>
    sint (map2_pos (MAP2 sz base mb nrows ncolumns nkeys) row column)
      + sint (field_size (MAP2 sz base mb nrows ncolumns nkeys))
      \<le> sint (data_size (MAP2 sz base mb nrows ncolumns nkeys)) \<and>
    (\<forall>i < unat (field_size (MAP2 sz base mb nrows ncolumns nkeys)).
       in_region (data (MAP2 sz base mb nrows ncolumns nkeys))
         (unat (data_size (MAP2 sz base mb nrows ncolumns nkeys)))
         (map2_ptr (data (MAP2 sz base mb nrows ncolumns nkeys))
            (map2_pos (MAP2 sz base mb nrows ncolumns nkeys) row column) + of_nat i))"
proof -
  let ?m = "MAP2 sz base mb nrows ncolumns nkeys"
  let ?P = "(sint column + int ncolumns * sint row) * int sz"
  note pos = MAP2_positive [OF row] MAP2_positive_columns [OF col]
  note f = MAP2_fields [OF sz fits pos, of base mb nkeys]
  from row col have r: "0 \<le> sint row" "sint row < int nrows"
    and c: "0 \<le> sint column" "sint column < int ncolumns"
    by (simp_all add: word_sle_eq word_sless_alt f)
  have F0: "0 \<le> int sz" by simp
  note b = cell_bound [OF r c F0]
  have D: "int nrows * int ncolumns * int sz < 2 ^ 31"
    using fits by (simp flip: of_nat_mult of_nat_less_iff)
  have P: "sint (map2_pos ?m row column) = ?P"
    unfolding map2_pos_of_int f
    using b D by (intro sint_word_of_int_small) simp_all
  have inside: "in_region (data ?m) (unat (data_size ?m))
      (map2_ptr (data ?m) (map2_pos ?m row column) + of_nat i)"
    if "i < unat (field_size ?m)" for i
  proof -
    from that have i: "i < sz" by (simp add: f)
    have "map2_pos ?m row column = word_of_int ?P"
      by (simp add: map2_pos_of_int f)
    also have "\<dots> = of_nat (nat ?P)" using b(1) by simp
    finally have eq: "map2_pos ?m row column + of_nat i = of_nat (nat ?P + i)" by simp
    have lt: "nat ?P + i < nrows * ncolumns * sz"
      using b i by (simp add: nat_less_iff nat_add_distrib flip: of_nat_mult)
    with fits have "nat ?P + i < 2 ^ 32" by simp
    then have "unat (of_nat (nat ?P + i) :: 32 word) = nat ?P + i"
      by (rule unat_of_nat_small)
    with lt have "unat (map2_pos ?m row column + of_nat i) < nrows * ncolumns * sz"
      by (simp only: eq)
    then show ?thesis
      by (simp add: in_region_def map2_ptr_def f(5))
  qed
  from P b inside show ?thesis by (simp add: f)
qed

theorem map2_pos_within_buffer_witness:
  "(0 :: int32) \<le>s 3 \<and> 3 <s rows example_map \<and> (0 :: int32) \<le>s 1 \<and> 1 <s columns example_map \<and>
   sint (map2_pos example_map 3 1) = 56 \<and>
   sint (map2_pos example_map 3 1) + sint (field_size example_map)
     \<le> sint (data_size example_map) \<and>
   in_region (data example_map) (unat (data_size example_map))
     (map2_ptr (data example_map) (map2_pos example_map 3 1) + 7)"
proof -
  have m: "example_map = MAP2 8 0x20000000 0x20000100 4 2 MAP2_NKEYS_2"
    by (simp add: example_map_def)
  have sz: "(0 :: nat) < 8" and fits: "(4 :: nat) * 2 * 8 < 2 ^ 31" by simp_all
  have row: "(0 :: int32) \<le>s 3" "3 <s rows (MAP2 8 0x20000000 0x20000100 4 2 MAP2_NKEYS_2)"
    and col: "(0 :: int32) \<le>s 1" "1 <s columns (MAP2 8 0x20000000 0x20000100 4 2 MAP2_NKEYS_2)"
    by (simp_all add: MAP2_def word_sle_eq word_sless_alt)
  have i: "7 < unat (field_size (MAP2 8 0x20000000 0x20000100 4 2 MAP2_NKEYS_2))"
    by (simp add: MAP2_def)
  have p: "sint (map2_pos example_map 3 1) = 56"
    by (simp add: map2_pos_def example_defs)
  note T = map2_pos_within_buffer [OF sz fits row col, folded m]
  from T have c1: "sint (map2_pos example_map 3 1) + sint (field_size example_map)
      \<le> sint (data_size example_map)"
    by blast
  from T i [folded m] have "in_region (data example_map) (unat (data_size example_map))
     (map2_ptr (data example_map) (map2_pos example_map 3 1) + of_nat 7)"
    by blast
  then have c2: "in_region (data example_map) (unat (data_size example_map))
     (map2_ptr (data example_map) (map2_pos example_map 3 1) + 7)"
    by simp
  from row col p c1 c2 show ?thesis unfolding m by blast
qed

subsection \<open>From an item back to its row and column\<close>

text \<open>
  Claim C10. For a map with at least one column whose grid has a size that an \<^verbatim>\<open>int\<close>
  can hold, and for the \<open>i\<close>-th item of \<^verbatim>\<open>map2_unsafe_foreach\<close> with
  \<open>i < rows * columns\<close> (items of the map's own type, of \<^verbatim>\<open>field_size\<close> bytes):
  \<^verbatim>\<open>map2_item_row\<close> is \<open>i div columns\<close>, \<^verbatim>\<open>map2_item_column\<close> is \<open>i mod columns\<close>,
  \<^verbatim>\<open>map2_pos\<close> of that row and column is \<open>i * field_size\<close>, and the address at that
  offset is the item again.
\<close>

theorem map2_item_position_roundtrip:
  assumes cols: "1 \<le>s columns m"
    and sz: "0 < sz" "sint (field_size m) = int sz"
    and i: "int i < sint (rows m) * sint (columns m)"
    and fits: "sint (rows m) * sint (columns m) * sint (field_size m) < 2 ^ 31"
  shows "sint (map2_item_row m (foreach_item m sz i) sz) = int i div sint (columns m) \<and>
    sint (map2_item_column m (foreach_item m sz i) sz) = int i mod sint (columns m) \<and>
    sint (map2_pos m (map2_item_row m (foreach_item m sz i) sz)
            (map2_item_column m (foreach_item m sz i) sz)) = int i * sint (field_size m) \<and>
    map2_ptr (data m) (map2_pos m (map2_item_row m (foreach_item m sz i) sz)
            (map2_item_column m (foreach_item m sz i) sz)) = foreach_item m sz i"
proof -
  let ?C = "sint (columns m)"
  let ?I = "int i"
  let ?F = "int sz"
  let ?item = "foreach_item m sz i"
  from cols have C1: "1 \<le> ?C" by (simp add: word_sle_eq)
  from sz have F1: "1 \<le> ?F" by simp
  have "(?I + 1) * ?F \<le> (sint (rows m) * ?C) * ?F"
    using i F1 by (intro mult_right_mono) simp_all
  with fits have IF: "?I * ?F + ?F < 2 ^ 31" by (simp add: sz algebra_simps)
  have "?I * 1 \<le> ?I * ?F" using F1 by (intro mult_left_mono) simp_all
  with IF F1 have I: "?I < 2 ^ 31" by simp
  from IF F1 have IF': "?I * ?F < 2 ^ 31" by simp
  have szlt: "sz < 2 ^ 31"
    using sint_lt [of "field_size m"] by (simp add: sz)
  have isz: "i * sz < 2 ^ 31"
    using IF' by (simp flip: of_nat_mult of_nat_less_iff)
  have d: "sint (?item - data m) = ?I * ?F"
    using sint_of_nat_small [OF isz] by (simp add: foreach_item_eq)
  have s: "sint (of_nat sz :: 32 word) = ?F"
    using szlt by (rule sint_of_nat_small)
  have idx: "ptr_diff sz ?item (data m) = word_of_int ?I"
    using F1 by (simp add: ptr_diff_def c_div_nonneg d s)
  have sidx: "sint (word_of_int ?I :: 32 word) = ?I"
    using I by (intro sint_word_of_int_small) simp_all
  have row: "map2_item_row m ?item sz = word_of_int (?I div ?C)"
    using C1 by (simp add: map2_item_row_def idx c_div_nonneg sidx del: of_int_of_nat_eq)
  have col: "map2_item_column m ?item sz = word_of_int (?I mod ?C)"
    using C1 by (simp add: map2_item_column_def idx c_mod_nonneg sidx del: of_int_of_nat_eq)
  from C1 have C0: "0 < ?C" by simp
  have "?I div ?C \<le> ?I div 1" using C1 by (intro zdiv_mono2) simp_all
  then have dle: "?I div ?C \<le> ?I" by simp
  have dge: "0 \<le> ?I div ?C" using C0 by (simp add: pos_imp_zdiv_nonneg_iff)
  have srow: "sint (map2_item_row m ?item sz) = ?I div ?C"
    unfolding row using dle dge I by (intro sint_word_of_int_small) simp_all
  have mle: "?I mod ?C \<le> ?I" by (intro zmod_le_nonneg_dividend) simp
  have mge: "0 \<le> ?I mod ?C" using C0 by simp
  have scol: "sint (map2_item_column m ?item sz) = ?I mod ?C"
    unfolding col using mle mge I by (intro sint_word_of_int_small) simp_all
  have pos: "map2_pos m (map2_item_row m ?item sz) (map2_item_column m ?item sz)
      = word_of_int (?I * ?F)"
  proof -
    have "map2_pos m (map2_item_row m ?item sz) (map2_item_column m ?item sz)
        = word_of_int ((?I mod ?C + ?C * (?I div ?C)) * sint (field_size m))"
      using row col by (rule map2_pos_words)
    also have "?I mod ?C + ?C * (?I div ?C) = ?I" by simp
    finally show ?thesis by (simp only: sz)
  qed
  have spos: "sint (map2_pos m (map2_item_row m ?item sz) (map2_item_column m ?item sz))
      = ?I * sint (field_size m)"
  proof -
    have "0 \<le> ?I * ?F" by simp
    then have "- (2 ^ 31) \<le> ?I * ?F" by (rule order_trans [rotated]) simp
    then show ?thesis
      unfolding pos sz using IF' by (intro sint_word_of_int_small)
  qed
  have ptr: "map2_ptr (data m) (map2_pos m (map2_item_row m ?item sz)
      (map2_item_column m ?item sz)) = ?item"
    unfolding map2_ptr_def pos by (simp add: foreach_item_eq)
  from srow scol spos ptr show ?thesis by simp
qed

theorem map2_item_position_roundtrip_witness:
  "1 \<le>s columns example_map \<and>
   int 5 < sint (rows example_map) * sint (columns example_map) \<and>
   foreach_item example_map 8 5 = 0x20000028 \<and>
   sint (map2_item_row example_map (foreach_item example_map 8 5) 8) = 2 \<and>
   sint (map2_item_column example_map (foreach_item example_map 8 5) 8) = 1 \<and>
   sint (map2_pos example_map (map2_item_row example_map (foreach_item example_map 8 5) 8)
           (map2_item_column example_map (foreach_item example_map 8 5) 8)) = 40 \<and>
   map2_ptr (data example_map)
     (map2_pos example_map (map2_item_row example_map (foreach_item example_map 8 5) 8)
        (map2_item_column example_map (foreach_item example_map 8 5) 8))
     = foreach_item example_map 8 5"
proof -
  have cols: "1 \<le>s columns example_map" by (simp add: example_defs)
  have sz: "(0 :: nat) < 8" "sint (field_size example_map) = int 8"
    by (simp_all add: example_defs)
  have i: "int 5 < sint (rows example_map) * sint (columns example_map)"
    by (simp add: example_defs)
  have fits: "sint (rows example_map) * sint (columns example_map)
      * sint (field_size example_map) < 2 ^ 31"
    by (simp add: example_defs)
  have e: "sint (columns example_map) = 2" "sint (field_size example_map) = 8"
    by (simp_all add: example_defs)
  have it: "foreach_item example_map 8 5 = 0x20000028"
    by (simp add: foreach_item_eq example_defs)
  note T = map2_item_position_roundtrip [OF cols sz i fits]
  from T have c1: "sint (map2_item_row example_map (foreach_item example_map 8 5) 8) = 2"
    by (simp add: e)
  from T have c2: "sint (map2_item_column example_map (foreach_item example_map 8 5) 8) = 1"
    by (simp add: e)
  from T have c3: "sint (map2_pos example_map
      (map2_item_row example_map (foreach_item example_map 8 5) 8)
      (map2_item_column example_map (foreach_item example_map 8 5) 8)) = 40"
    by (simp add: e)
  from T have c4: "map2_ptr (data example_map)
     (map2_pos example_map (map2_item_row example_map (foreach_item example_map 8 5) 8)
        (map2_item_column example_map (foreach_item example_map 8 5) 8))
     = foreach_item example_map 8 5"
    by blast
  from cols i it c1 c2 c3 c4 show ?thesis by blast
qed

end
